theory Spec2Isabelle
  imports Main
begin

section \<open>Values and effects of the script\<close>

text \<open>
  The program is one Streamlit script, \<^verbatim>\<open>app.py\<close>. A Python \<^verbatim>\<open>str\<close> is a sequence of
  Unicode code points and \<^verbatim>\<open>len\<close> counts code points, so a string is modelled as the list
  of its code points. The Japanese literals of the script are written out that way.
\<close>

type_synonym str = "nat list"

text \<open>
  An exception of class \<^verbatim>\<open>Exception\<close>, carrying what \<^verbatim>\<open>str(e)\<close> gives. The libraries
  the script calls (PyPDF2, google.generativeai) raise subclasses of \<^verbatim>\<open>Exception\<close>;
  interpreter-level \<^verbatim>\<open>BaseException\<close>s (an interrupt, an exit) are not modelled.
\<close>

datatype exn = Exception str

datatype 'a outcome = Return 'a | Raise exn

text \<open>Truthiness of an optional string, as in \<^verbatim>\<open>if original_text:\<close>.\<close>

fun truthy :: "str option \<Rightarrow> bool" where
  "truthy None = False"
| "truthy (Some s) = (s \<noteq> [])"

text \<open>\<^verbatim>\<open>sep.join(parts)\<close>.\<close>

fun join :: "str \<Rightarrow> str list \<Rightarrow> str" where
  "join sep [] = []"
| "join sep [x] = x"
| "join sep (x # y # ys) = x @ sep @ join sep (y # ys)"

text \<open>
  What the script shows or does, in the order it does it. \<^verbatim>\<open>ProgressUpdate c n\<close> is the
  call \<^verbatim>\<open>progress_bar.progress((i + 1) / total_chunks, text=...)\<close> of line 143 with
  \<open>c = i + 1\<close> and \<open>n = total_chunks\<close>, the two numbers its value and its text are made of.
  The spinner, the placeholder of line 131 and the two readings of the clock are not recorded.
\<close>

datatype event =
    StError str
  | StSuccessExtracted
  | ProgressCreate
  | TranslateCall str str str
  | ProgressUpdate nat nat
  | TextArea str
  | Sleep nat
  | ProgressEmpty
  | StSuccessDone


section \<open>Text extraction (lines 20-34)\<close>

text \<open>
  The uploaded file is modelled by what PyPDF2 makes of it: opening it raises or gives the
  pages, and \<^verbatim>\<open>extract_text\<close> of each page raises or gives a string or \<^verbatim>\<open>None\<close>.
\<close>

type_synonym pdf = "str option outcome list outcome"

definition pdf_error_prefix :: str where
  "pdf_error_prefix =
     [80, 68, 70, 12398, 35501, 12415, 36796, 12415, 20013, 12395, 12456, 12521, 12540,
      12364, 30330, 29983, 12375, 12414, 12375, 12383, 58, 32]"

fun read_pages :: "str \<Rightarrow> str option outcome list \<Rightarrow> str outcome" where
  "read_pages text [] = Return text"
| "read_pages text (Raise e # pages) = Raise e"
| "read_pages text (Return page_text # pages) =
     read_pages (case page_text of
                   None \<Rightarrow> text
                 | Some t \<Rightarrow> if t \<noteq> [] then text @ t else text) pages"

definition extract_text_from_pdf :: "pdf \<Rightarrow> str option \<times> event list" where
  "extract_text_from_pdf uploaded_file =
     (case (case uploaded_file of
              Raise e \<Rightarrow> Raise e
            | Return pages \<Rightarrow> read_pages [] pages) of
        Return text \<Rightarrow> (Some text, [])
      | Raise (Exception m) \<Rightarrow> (None, [StError (pdf_error_prefix @ m)]))"

section \<open>The translator client (lines 36-62)\<close>

text \<open>
  The remote model is a parameter: four operations of the google.generativeai library, each
  of which may raise and may change the state \<open>'w\<close> of the world outside the script (the
  network, the service's quota), so that two calls with the same text can end differently.
\<close>

record ('w, 'm, 'r) genai =
  configure :: "str \<Rightarrow> 'w \<Rightarrow> unit outcome \<times> 'w"
  GenerativeModel :: "str \<Rightarrow> 'w \<Rightarrow> 'm outcome \<times> 'w"
  generate_content :: "'m \<Rightarrow> str \<Rightarrow> 'w \<Rightarrow> 'r outcome \<times> 'w"
  response_text :: "'r \<Rightarrow> 'w \<Rightarrow> str outcome \<times> 'w"

definition prompt_head :: str where
  "prompt_head =
     [10, 32, 32, 32, 32, 32, 32, 32, 32, 12354, 12394, 12383, 12399, 12503, 12525, 12398,
      32763, 35379, 23478, 12391, 12377, 12290, 20197, 19979, 12398, 33521, 25991, 12434,
      12289, 25991, 33032, 12434, 32771, 24942, 12375, 12289, 33258, 28982, 12391, 27969,
      26274, 12394, 26085, 26412, 35486, 12395, 32763, 35379, 12375, 12390, 12367, 12384,
      12373, 12356, 12290, 10, 32, 32, 32, 32, 32, 32, 32, 32, 23554, 38272, 29992, 35486,
      12399, 27491, 30906, 12395, 35379, 12375, 12289, 20803, 12398, 25991, 31456, 12398,
      24847, 22259, 12420, 12491, 12517, 12450, 12531, 12473, 12434, 24544, 23455, 12395,
      20877, 29694, 12375, 12390, 12367, 12384, 12373, 12356, 12290, 10, 32, 32, 32, 32,
      32, 32, 32, 32, 21407, 25991, 12395, 38306, 12377, 12427, 35299, 35500, 12394, 12393,
      12398, 36861, 21152, 24773, 22577, 12420, 21069, 32622, 12365, 12399, 19981, 35201,
      12391, 12377, 12290, 10, 10, 32, 32, 32, 32, 32, 32, 32, 32, 45, 45, 45, 10, 32, 32,
      32, 32, 32, 32, 32, 32, 69, 110, 103, 108, 105, 115, 104, 32, 84, 101, 120, 116, 58,
      10, 32, 32, 32, 32, 32, 32, 32, 32]"

definition prompt_tail :: str where
  "prompt_tail =
     [10, 32, 32, 32, 32, 32, 32, 32, 32, 45, 45, 45, 10, 10, 32, 32, 32, 32, 32, 32, 32,
      32, 74, 97, 112, 97, 110, 101, 115, 101, 32, 84, 114, 97, 110, 115, 108, 97, 116,
      105, 111, 110, 58, 10, 32, 32, 32, 32, 32, 32, 32, 32]"

definition translate_error_prefix :: str where
  "translate_error_prefix =
     [32763, 35379, 20013, 12395, 12456, 12521, 12540, 12364, 30330, 29983, 12375, 12414,
      12375, 12383, 58, 32]"

text \<open>The body of the \<^verbatim>\<open>try\<close> block, lines 41-59.\<close>

definition translate_body ::
  "('w, 'm, 'r) genai \<Rightarrow> str \<Rightarrow> str \<Rightarrow> str \<Rightarrow> 'w \<Rightarrow> str outcome \<times> 'w" where
  "translate_body g text_chunk api_key model_name w =
     (case configure g api_key w of
        (Raise e, w1) \<Rightarrow> (Raise e, w1)
      | (Return u, w1) \<Rightarrow>
          (case GenerativeModel g model_name w1 of
             (Raise e, w2) \<Rightarrow> (Raise e, w2)
           | (Return model, w2) \<Rightarrow>
               (let prompt = prompt_head @ text_chunk @ prompt_tail in
                case generate_content g model prompt w2 of
                  (Raise e, w3) \<Rightarrow> (Raise e, w3)
                | (Return response, w3) \<Rightarrow> response_text g response w3)))"

text \<open>The whole function: \<^verbatim>\<open>except Exception as e\<close> turns a raise into a returned string.\<close>

definition translate_text ::
  "('w, 'm, 'r) genai \<Rightarrow> str \<Rightarrow> str \<Rightarrow> str \<Rightarrow> 'w \<Rightarrow> str outcome \<times> 'w" where
  "translate_text g text_chunk api_key model_name w =
     (case translate_body g text_chunk api_key model_name w of
        (Return t, w') \<Rightarrow> (Return t, w')
      | (Raise (Exception m), w') \<Rightarrow> (Return (translate_error_prefix @ m), w'))"

section \<open>The translation loop and the button handler (lines 103-160)\<close>

record 'w run_state =
  translated_chunks :: "str list"
  trace :: "event list"
  world :: 'w

definition division_by_zero :: str where
  "division_by_zero = [100, 105, 118, 105, 115, 105, 111, 110, 32, 98, 121, 32, 122, 101, 114, 111]"

text \<open>
  Lines 135-153. The loop has no \<^verbatim>\<open>try\<close> of its own: an exception out of
  \<^verbatim>\<open>translate_text\<close>, or out of the division of line 141, would leave it. The calls
  into Streamlit and \<^verbatim>\<open>time.sleep\<close> are effects that return.
\<close>

fun translation_loop ::
  "('w, 'm, 'r) genai \<Rightarrow> str \<Rightarrow> str \<Rightarrow> nat \<Rightarrow> nat \<Rightarrow> str list \<Rightarrow> 'w run_state
     \<Rightarrow> exn option \<times> 'w run_state" where
  "translation_loop g api_key model_name total_chunks i [] st = (None, st)"
| "translation_loop g api_key model_name total_chunks i (chunk # chunks) st =
     (let st1 = st\<lparr>trace := trace st @ [TranslateCall chunk api_key model_name]\<rparr> in
      case translate_text g chunk api_key model_name (world st1) of
        (Raise e, w') \<Rightarrow> (Some e, st1\<lparr>world := w'\<rparr>)
      | (Return translated_chunk, w') \<Rightarrow>
          (let st2 = st1\<lparr>translated_chunks := translated_chunks st1 @ [translated_chunk],
                         world := w'\<rparr> in
           if total_chunks = 0 then (Some (Exception division_by_zero), st2)
           else translation_loop g api_key model_name total_chunks (i + 1) chunks
                  (st2\<lparr>trace := trace st2 @
                          [ProgressUpdate (i + 1) total_chunks,
                           TextArea (join [] (translated_chunks st2)),
                           Sleep 1]\<rparr>)))"

record session =
  translated_text :: str
  original_text :: "str option"

datatype 'e failure = SplitterRaised 'e | LoopRaised exn

record ('w, 'e) app_result =
  session_state :: session
  ui :: "event list"
  remote :: 'w
  raised :: "'e failure option"

text \<open>Lines 124-160: the run over the chunks the splitter returned.\<close>

definition translate_chunks ::
  "('w, 'm, 'r) genai \<Rightarrow> str \<Rightarrow> str \<Rightarrow> str list \<Rightarrow> session \<Rightarrow> event list \<Rightarrow> 'w
     \<Rightarrow> ('w, 'e) app_result" where
  "translate_chunks g api_key model_name chunks ss tr w =
     (let total_chunks = length chunks in
      case translation_loop g api_key model_name total_chunks 0 chunks
             \<lparr>translated_chunks = [], trace = tr @ [ProgressCreate], world = w\<rparr> of
        (Some e, st) \<Rightarrow>
          \<lparr>session_state = ss, ui = trace st, remote = world st,
           raised = Some (LoopRaised e)\<rparr>
      | (None, st) \<Rightarrow>
          \<lparr>session_state = ss\<lparr>translated_text := join [] (translated_chunks st)\<rparr>,
           ui = trace st @ [ProgressEmpty, StSuccessDone], remote = world st,
           raised = None\<rparr>)"

text \<open>
  Lines 103-160, one click of the button with a file uploaded. The text splitter is
  langchain's \<^verbatim>\<open>RecursiveCharacterTextSplitter\<close>, imported at line 5; it is a parameter
  here: given chunk size, overlap and text it returns the chunks or raises.
\<close>

definition app_click ::
  "('w, 'm, 'r) genai \<Rightarrow> (int \<Rightarrow> int \<Rightarrow> str \<Rightarrow> 'e + str list) \<Rightarrow> str \<Rightarrow> str \<Rightarrow> int \<Rightarrow> int
     \<Rightarrow> pdf \<Rightarrow> 'w \<Rightarrow> ('w, 'e) app_result" where
  "app_click g splitter api_key model_name chunk_size chunk_overlap uploaded_file w =
     (let ss0 = \<lparr>translated_text = [], original_text = Some []\<rparr>;
          (extracted, tr) = extract_text_from_pdf uploaded_file;
          ss1 = ss0\<lparr>original_text := extracted\<rparr>
      in if truthy extracted then
           (case extracted of
              None \<Rightarrow> \<lparr>session_state = ss1, ui = tr, remote = w, raised = None\<rparr>
            | Some text \<Rightarrow>
                (case splitter chunk_size chunk_overlap text of
                   Inl e \<Rightarrow>
                     \<lparr>session_state = ss1, ui = tr @ [StSuccessExtracted], remote = w,
                      raised = Some (SplitterRaised e)\<rparr>
                 | Inr chunks \<Rightarrow>
                     translate_chunks g api_key model_name chunks ss1
                       (tr @ [StSuccessExtracted]) w))
         else \<lparr>session_state = ss1, ui = tr, remote = w, raised = None\<rparr>)"



section \<open>What a run computes\<close>

text \<open>
  The outcomes of the \<^verbatim>\<open>try\<close> body for the chunks of a run, one after the other, each
  starting in the world the previous one left; and the world after all of them.
\<close>

fun attempts :: "('w, 'm, 'r) genai \<Rightarrow> str \<Rightarrow> str \<Rightarrow> str list \<Rightarrow> 'w \<Rightarrow> str outcome list" where
  "attempts g api_key model_name [] w = []"
| "attempts g api_key model_name (chunk # chunks) w =
     fst (translate_body g chunk api_key model_name w) #
     attempts g api_key model_name chunks (snd (translate_body g chunk api_key model_name w))"

fun world_after :: "('w, 'm, 'r) genai \<Rightarrow> str \<Rightarrow> str \<Rightarrow> str list \<Rightarrow> 'w \<Rightarrow> 'w" where
  "world_after g api_key model_name [] w = w"
| "world_after g api_key model_name (chunk # chunks) w =
     world_after g api_key model_name chunks (snd (translate_body g chunk api_key model_name w))"

text \<open>The string a chunk contributes: the translation, or the error description.\<close>

fun recorded :: "str outcome \<Rightarrow> str" where
  "recorded (Return t) = t"
| "recorded (Raise (Exception m)) = translate_error_prefix @ m"

text \<open>The four effects of one pass through the loop body.\<close>

definition iteration :: "str \<Rightarrow> str \<Rightarrow> nat \<Rightarrow> nat \<Rightarrow> str \<Rightarrow> str \<Rightarrow> event list" where
  "iteration api_key model_name total_chunks i chunk shown =
     [TranslateCall chunk api_key model_name, ProgressUpdate (i + 1) total_chunks,
      TextArea shown, Sleep 1]"

text \<open>Projections of a trace: the chunks handed to the translator, the progress updates.\<close>

fun translate_calls :: "event list \<Rightarrow> str list" where
  "translate_calls [] = []"
| "translate_calls (TranslateCall chunk api_key model_name # es) = chunk # translate_calls es"
| "translate_calls (e # es) = translate_calls es"

fun progress_events :: "event list \<Rightarrow> (nat \<times> nat) list" where
  "progress_events [] = []"
| "progress_events (ProgressUpdate c n # es) = (c, n) # progress_events es"
| "progress_events (e # es) = progress_events es"

text \<open>
  A stand-in for the remote service, for the worked examples: the world is the number of
  requests made so far, the second request is refused, every other one is answered.
\<close>

definition quota :: str where
  "quota = [113, 117, 111, 116, 97]"

definition stub_genai :: "(nat, str, str) genai" where
  "stub_genai =
     \<lparr>configure = (\<lambda>api_key w. (Return (), w)),
      GenerativeModel = (\<lambda>model_name w. (Return model_name, w)),
      generate_content = (\<lambda>model prompt w.
         (if w = 1 then Raise (Exception quota) else Return [74, 80, 48 + w], Suc w)),
      response_text = (\<lambda>response w. (Return response, w))\<rparr>"

text \<open>
  A second stand-in, whose answers read like error descriptions: the second request is
  refused as before, and every other one is answered with the very string that
  \<^verbatim>\<open>translate_text\<close> returns for that refusal.
\<close>

definition mimic_genai :: "(nat, str, str) genai" where
  "mimic_genai =
     \<lparr>configure = (\<lambda>api_key w. (Return (), w)),
      GenerativeModel = (\<lambda>model_name w. (Return model_name, w)),
      generate_content = (\<lambda>model prompt w.
         (if w = 1 then Raise (Exception quota) else Return (translate_error_prefix @ quota),
          Suc w)),
      response_text = (\<lambda>response w. (Return response, w))\<rparr>"

section \<open>The chunker of the specification\<close>

text \<open>
  Modelled from the spec: the chunker. The script splits the text with langchain's
  \<^verbatim>\<open>RecursiveCharacterTextSplitter\<close> (imported at line 5, called at lines 118-123), whose
  code is not part of this repository. What follows is the chunker of section 4.1 of the
  specification, and nothing here says what the library does. The specification leaves two
  things open, and both are parameters: which characters count as a whitespace or paragraph
  boundary (\<open>ws\<close>), and how many characters of a segment's tail the lookback window spans
  (\<open>W\<close>).
\<close>

text \<open>Modelled from the spec: the rejection named \<^verbatim>\<open>InvalidConfiguration\<close> (sections 4.1 and 7).\<close>

datatype config_error = InvalidConfiguration

text \<open>
  Modelled from the spec: the chunk of section 3, with its ordinal position, its offsets in
  the original text, its raw text and the number of characters it shares with the chunk
  before it.
\<close>

record chunk =
  chunk_index :: nat
  chunk_start :: nat
  chunk_end :: nat
  chunk_text :: str
  overlapWithPrevious :: nat

text \<open>
  Modelled from the spec: "the latest whitespace or paragraph boundary within the segment's
  tail". A break after \<open>q\<close> characters is at a boundary when the character before it is
  one; the search goes down from \<open>p\<close> and stops at \<open>lo\<close>.
\<close>

fun latest_boundary :: "(nat \<Rightarrow> bool) \<Rightarrow> str \<Rightarrow> nat \<Rightarrow> nat \<Rightarrow> nat option" where
  "latest_boundary ws seg lo 0 = None"
| "latest_boundary ws seg lo (Suc q) =
     (if Suc q \<le> lo then None
      else if ws (seg ! q) then Some (Suc q)
      else latest_boundary ws seg lo q)"

text \<open>
  Modelled from the spec: where a segment of at most \<open>chunkSize\<close> characters ends. The
  latest boundary among the last \<open>W\<close> break positions is preferred, "falling back to a hard
  cut otherwise". The window stays above the overlap, since the next segment begins
  \<open>overlap\<close> characters before this end and the walk has to advance.
\<close>

definition cut :: "(nat \<Rightarrow> bool) \<Rightarrow> nat \<Rightarrow> nat \<Rightarrow> nat \<Rightarrow> str \<Rightarrow> nat" where
  "cut ws W chunkSize overlap seg =
     (case latest_boundary ws seg (max overlap (chunkSize - W)) chunkSize of
        Some p \<Rightarrow> p
      | None \<Rightarrow> chunkSize)"

text \<open>
  Modelled from the spec: "greedily walk the text producing segments of at most chunkSize
  characters"; "each subsequent segment begins overlap characters before the previous
  segment's end (measured in the original text)"; the remainder that fits in one segment is
  the last chunk.
\<close>

function walk ::
  "(nat \<Rightarrow> bool) \<Rightarrow> nat \<Rightarrow> nat \<Rightarrow> nat \<Rightarrow> str \<Rightarrow> nat \<Rightarrow> nat \<Rightarrow> chunk list" where
  "walk ws W chunkSize overlap T idx pos =
     (if chunkSize \<le> overlap \<or> length T \<le> pos then []
      else if length T - pos \<le> chunkSize then
        [\<lparr>chunk_index = idx, chunk_start = pos, chunk_end = length T,
          chunk_text = drop pos T,
          overlapWithPrevious = (if idx = 0 then 0 else overlap)\<rparr>]
      else
        (let e = pos + cut ws W chunkSize overlap (drop pos T) in
         \<lparr>chunk_index = idx, chunk_start = pos, chunk_end = e,
          chunk_text = take (e - pos) (drop pos T),
          overlapWithPrevious = (if idx = 0 then 0 else overlap)\<rparr>
         # walk ws W chunkSize overlap T (idx + 1) (e - overlap)))"
  by pat_completeness auto
termination
proof (relation "measure (\<lambda>(ws, W, chunkSize, overlap, T, idx, pos). length T - pos)")
  show "wf (measure (\<lambda>(ws, W, chunkSize, overlap, T, idx, pos). length T - pos))" by simp
next
  fix ws :: "nat \<Rightarrow> bool" and W chunkSize overlap :: nat and T :: str and idx pos e :: nat
  assume a: "\<not> (chunkSize \<le> overlap \<or> length T \<le> pos)" "\<not> length T - pos \<le> chunkSize"
    and e: "e = pos + cut ws W chunkSize overlap (drop pos T)"
  have above: "lo < q" if "latest_boundary ws seg lo p = Some q" for seg lo p q
    using that by (induction p) (auto split: if_splits)
  have "overlap < cut ws W chunkSize overlap (drop pos T)"
  proof (cases "latest_boundary ws (drop pos T) (max overlap (chunkSize - W)) chunkSize")
    case None
    with a show ?thesis by (simp add: cut_def)
  next
    case (Some p)
    from above [OF Some] show ?thesis by (simp add: cut_def Some)
  qed
  with e have "pos < e - overlap" by arith
  moreover from a have "pos < length T" by simp
  ultimately have "length T - (e - overlap) < length T - pos" by arith
  then show "((ws, W, chunkSize, overlap, T, idx + 1, e - overlap),
              (ws, W, chunkSize, overlap, T, idx, pos))
          \<in> measure (\<lambda>(ws, W, chunkSize, overlap, T, idx, pos). length T - pos)"
    by simp
qed

declare walk.simps [simp del]

text \<open>
  Modelled from the spec: the contract \<^verbatim>\<open>split(text, chunkSize, overlap)\<close> with its
  constraints \<^verbatim>\<open>chunkSize > 0\<close> and \<^verbatim>\<open>0 <= overlap < chunkSize\<close>, whose "violation fails
  with InvalidConfiguration".
\<close>

definition chunker_split ::
  "(nat \<Rightarrow> bool) \<Rightarrow> nat \<Rightarrow> str \<Rightarrow> int \<Rightarrow> int \<Rightarrow> config_error + chunk list" where
  "chunker_split ws W text chunkSize overlap =
     (if chunkSize \<le> 0 \<or> overlap < 0 \<or> chunkSize \<le> overlap then Inl InvalidConfiguration
      else Inr (walk ws W (nat chunkSize) (nat overlap) text 0 0))"


text \<open>A chunk with its overlap region removed: what it adds to the chunks before it.\<close>

definition without_overlap :: "chunk \<Rightarrow> str" where
  "without_overlap c = drop (overlapWithPrevious c) (chunk_text c)"

text \<open>
  The chunk texts put together with the overlap regions removed: the first text whole, and
  every later one without its first \<open>ov\<close> characters.
\<close>

fun remove_overlaps :: "nat \<Rightarrow> str list \<Rightarrow> str" where
  "remove_overlaps ov [] = []"
| "remove_overlaps ov (t # ts) = t @ concat (map (drop ov) ts)"

text \<open>
  Each chunk of a list begins \<open>ov\<close> characters before the end of the one before it, and
  both its start and its end lie further on in the text.
\<close>

fun chained :: "nat \<Rightarrow> chunk list \<Rightarrow> bool" where
  "chained ov (c # d # cs) =
     (chunk_start d + ov = chunk_end c \<and> overlapWithPrevious d = ov \<and>
      chunk_index d = chunk_index c + 1 \<and>
      chunk_start c < chunk_start d \<and> chunk_end c < chunk_end d \<and> chained ov (d # cs))"
| "chained ov cs = True"

text \<open>Space and newline, the boundary characters of the worked examples.\<close>

definition is_space :: "nat \<Rightarrow> bool" where
  "is_space c \<longleftrightarrow> c = 32 \<or> c = 10"

section \<open>Lemmas about the loop\<close>

lemma join_empty: "join [] xs = concat xs"
  by (induction xs rule: induct_list012) simp_all

lemma translate_text_recorded:
  "translate_text g c k m w =
     (Return (recorded (fst (translate_body g c k m w))), snd (translate_body g c k m w))"
  by (auto simp: translate_text_def split: prod.splits outcome.splits exn.splits)

lemma length_attempts: "length (attempts g k m chunks w) = length chunks"
  by (induction chunks arbitrary: w) simp_all

lemma map_upt_Suc_shift: "map f [0..<Suc n] = f 0 # map (\<lambda>j. f (Suc j)) [0..<n]"
  by (simp add: map_upt_Suc del: upt_Suc)

lemma translation_loop_run:
  "0 < n \<Longrightarrow>
   translation_loop g k m n i chunks st =
     (None,
      \<lparr>translated_chunks = translated_chunks st @ map recorded (attempts g k m chunks (world st)),
       trace = trace st @
         concat (map (\<lambda>j. iteration k m n (i + j) (chunks ! j)
                        (concat (translated_chunks st @
                                 take (Suc j) (map recorded (attempts g k m chunks (world st))))))
                   [0..<length chunks]),
       world = world_after g k m chunks (world st)\<rparr>)"
proof (induction chunks arbitrary: i st)
  case Nil
  then show ?case by simp
next
  case (Cons c cs)
  show ?case
    using Cons.prems
    apply (simp only: translation_loop.simps Let_def translate_text_recorded)
    apply (simp add: Cons.IH map_upt_Suc_shift join_empty iteration_def del: upt_Suc)
    done
qed

lemma translation_loop_from_start:
  "translation_loop g k m (length chunks) 0 chunks
      \<lparr>translated_chunks = [], trace = tr, world = w\<rparr> =
     (None,
      \<lparr>translated_chunks = map recorded (attempts g k m chunks w),
       trace = tr @
         concat (map (\<lambda>j. iteration k m (length chunks) j (chunks ! j)
                        (concat (take (Suc j) (map recorded (attempts g k m chunks w)))))
                   [0..<length chunks]),
       world = world_after g k m chunks w\<rparr>)"
proof (cases chunks)
  case Nil
  then show ?thesis by simp
next
  case (Cons c cs)
  then have "0 < length chunks" by simp
  from translation_loop_run [OF this, of g k m 0 chunks "\<lparr>translated_chunks = [], trace = tr, world = w\<rparr>"]
  show ?thesis by simp
qed

lemma translate_chunks_run:
  "translate_chunks g k m chunks ss tr w =
     \<lparr>session_state = ss\<lparr>translated_text := concat (map recorded (attempts g k m chunks w))\<rparr>,
      ui = tr @ [ProgressCreate] @
         concat (map (\<lambda>j. iteration k m (length chunks) j (chunks ! j)
                        (concat (take (Suc j) (map recorded (attempts g k m chunks w)))))
                   [0..<length chunks]) @
         [ProgressEmpty, StSuccessDone],
      remote = world_after g k m chunks w,
      raised = None\<rparr>"
  by (simp add: translate_chunks_def translation_loop_from_start join_empty)

lemma translate_calls_append: "translate_calls (xs @ ys) = translate_calls xs @ translate_calls ys"
  by (induction xs rule: translate_calls.induct) simp_all

lemma progress_events_append: "progress_events (xs @ ys) = progress_events xs @ progress_events ys"
  by (induction xs rule: progress_events.induct) simp_all

lemma translate_calls_iterations:
  "translate_calls (concat (map (\<lambda>j. iteration k m n (f j) (chunks ! j) (sh j)) [0..<length chunks])) = chunks"
proof (induction chunks arbitrary: f sh)
  case Nil
  then show ?case by simp
next
  case (Cons c cs)
  show ?case
    using Cons.IH [of "\<lambda>j. f (Suc j)" "\<lambda>j. sh (Suc j)"]
    by (simp add: map_upt_Suc_shift iteration_def del: upt_Suc)
qed

lemma progress_events_iterations:
  "progress_events (concat (map (\<lambda>j. iteration k m n (i + j) (c j) (sh j)) [0..<len])) =
     map (\<lambda>j. (i + j + 1, n)) [0..<len]"
proof (induction len)
  case 0
  then show ?case by simp
next
  case (Suc len)
  then show ?case
    by (simp add: progress_events_append iteration_def)
qed

lemma translate_calls_iterations_prefix:
  "i \<le> length chunks \<Longrightarrow>
   translate_calls (concat (map (\<lambda>j. iteration k m n (f j) (chunks ! j) (sh j)) [0..<i])) =
     take i chunks"
proof (induction i)
  case 0
  then show ?case by simp
next
  case (Suc i)
  then show ?case
    by (simp add: translate_calls_append iteration_def take_Suc_conv_app_nth)
qed

lemma upt_split_at: "i < n \<Longrightarrow> [0..<n] = [0..<i] @ i # [Suc i..<n]"
proof -
  assume a: "i < n"
  then have "[0..<n] = [0..<i] @ [i..<n]"
    using upt_add_eq_append [of 0 i "n - i"] by simp
  with a show ?thesis by (simp add: upt_conv_Cons)
qed

lemma concat_map_split_at:
  "i < n \<Longrightarrow>
   concat (map f [0..<n]) = concat (map f [0..<i]) @ f i @ concat (map f [Suc i..<n])"
  by (simp only: upt_split_at [of i n] map_append list.map concat_append concat.simps)

lemma translate_chunks_update_position:
  assumes "i < length chunks"
  shows "\<exists>pre post.
     ui (translate_chunks g api_key model_name chunks ss tr w) =
       pre @ [TranslateCall (chunks ! i) api_key model_name,
              ProgressUpdate (i + 1) (length chunks),
              TextArea (concat (take (i + 1)
                 (map recorded (attempts g api_key model_name chunks w)))),
              Sleep 1] @ post \<and>
     translate_calls pre = translate_calls tr @ take i chunks \<and>
     progress_events pre = progress_events tr @ map (\<lambda>j. (j + 1, length chunks)) [0..<i]"
proof -
  define N where "N = length chunks"
  define f where "f = (\<lambda>j. iteration api_key model_name N j (chunks ! j)
      (concat (take (Suc j) (map recorded (attempts g api_key model_name chunks w)))))"
  define pre where "pre = tr @ [ProgressCreate] @ concat (map f [0..<i])"
  define post where "post = concat (map f [Suc i..<N]) @ [ProgressEmpty, StSuccessDone]"
  from assms have iN: "i < N" by (simp add: N_def)
  have "ui (translate_chunks g api_key model_name chunks ss tr w) =
      tr @ [ProgressCreate] @ concat (map f [0..<N]) @ [ProgressEmpty, StSuccessDone]"
    by (simp add: translate_chunks_run f_def N_def)
  also have "\<dots> = pre @ f i @ post"
    by (simp only: concat_map_split_at [OF iN, of f] pre_def post_def append_assoc)
  finally have whole: "ui (translate_chunks g api_key model_name chunks ss tr w) = pre @ f i @ post" .
  have fi: "f i = [TranslateCall (chunks ! i) api_key model_name,
              ProgressUpdate (i + 1) (length chunks),
              TextArea (concat (take (i + 1)
                 (map recorded (attempts g api_key model_name chunks w)))),
              Sleep 1]"
    by (simp add: f_def iteration_def N_def)
  have calls: "translate_calls pre = translate_calls tr @ take i chunks"
    using assms translate_calls_iterations_prefix [of i chunks api_key model_name N "\<lambda>j. j"]
    by (simp add: pre_def f_def translate_calls_append)
  have prog: "progress_events pre = progress_events tr @ map (\<lambda>j. (j + 1, length chunks)) [0..<i]"
    using progress_events_iterations [of api_key model_name N 0 "\<lambda>j. chunks ! j" _ i]
    by (simp add: pre_def f_def progress_events_append N_def)
  from whole fi calls prog show ?thesis by metis
qed

lemma mimic_body:
  "translate_body mimic_genai c k m w =
     (if w = 1 then Raise (Exception quota) else Return (translate_error_prefix @ quota), Suc w)"
  by (simp add: translate_body_def mimic_genai_def)

lemma failure_inline:
  assumes "k < length chunks"
    and "attempts g api_key model_name chunks w ! k = Raise (Exception msg)"
  shows "translated_text (session_state (translate_chunks g api_key model_name chunks ss tr w)) =
     concat (take k (map recorded (attempts g api_key model_name chunks w))) @
     translate_error_prefix @ msg @
     concat (drop (Suc k) (map recorded (attempts g api_key model_name chunks w)))"
proof -
  let ?rs = "map recorded (attempts g api_key model_name chunks w)"
  from assms(1) have k: "k < length ?rs" by (simp add: length_attempts)
  then have split: "?rs = take k ?rs @ ?rs ! k # drop (Suc k) ?rs"
    by (rule id_take_nth_drop)
  from k assms(2) have at_k: "?rs ! k = translate_error_prefix @ msg"
    by (simp add: length_attempts)
  from arg_cong [OF split, of concat]
  have "concat ?rs = concat (take k ?rs) @ ?rs ! k @ concat (drop (Suc k) ?rs)"
    by (simp only: concat_append concat.simps)
  then have parts: "concat ?rs =
      concat (take k ?rs) @ translate_error_prefix @ msg @ concat (drop (Suc k) ?rs)"
    by (simp only: at_k append_assoc)
  have "translated_text (session_state
      (translate_chunks g api_key model_name chunks ss tr w)) = concat ?rs"
    by (simp add: translate_chunks_run)
  also note parts
  finally show ?thesis .
qed

lemma stub_body:
  "translate_body stub_genai c k m w =
     (if w = 1 then Raise (Exception quota) else Return [74, 80, 48 + w], Suc w)"
  by (simp add: translate_body_def stub_genai_def)

section \<open>The translator client is total\<close>

text \<open>
  Claim C10, as amended. \<^verbatim>\<open>translate_text\<close> returns a string for every chunk text, API key
  and model name, whatever the remote library does: it never raises. When the body of its
  \<^verbatim>\<open>try\<close> raised, the string returned is the fixed prefix followed by the exception's
  text, so it begins with the prefix; when the body returned, it is the text the body
  returned. In a run, the description of a failure at chunk \<open>k\<close> stands in the final text at
  the place of chunk \<open>k\<close>, between the strings of the chunks before and after it. The prefix
  marks every failure; it does not tell a failure from a translation that reads the same.
\<close>

theorem translate_text_never_raises:
  "(\<exists>s. translate_text g text_chunk api_key model_name w =
          (Return s, snd (translate_body g text_chunk api_key model_name w)) \<and>
     (\<forall>msg. fst (translate_body g text_chunk api_key model_name w) = Raise (Exception msg)
        \<longrightarrow> s = translate_error_prefix @ msg \<and>
            take (length translate_error_prefix) s = translate_error_prefix) \<and>
     (\<forall>t. fst (translate_body g text_chunk api_key model_name w) = Return t \<longrightarrow> s = t)) \<and>
   (\<forall>k msg. k < length chunks \<and>
        attempts g api_key model_name chunks w ! k = Raise (Exception msg) \<longrightarrow>
      translated_text (session_state (translate_chunks g api_key model_name chunks ss tr w)) =
        concat (take k (map recorded (attempts g api_key model_name chunks w))) @
        translate_error_prefix @ msg @
        concat (drop (Suc k) (map recorded (attempts g api_key model_name chunks w))))"
proof (intro conjI allI impI)
  show "\<exists>s. translate_text g text_chunk api_key model_name w =
          (Return s, snd (translate_body g text_chunk api_key model_name w)) \<and>
     (\<forall>msg. fst (translate_body g text_chunk api_key model_name w) = Raise (Exception msg)
        \<longrightarrow> s = translate_error_prefix @ msg \<and>
            take (length translate_error_prefix) s = translate_error_prefix) \<and>
     (\<forall>t. fst (translate_body g text_chunk api_key model_name w) = Return t \<longrightarrow> s = t)"
    by (auto simp: translate_text_recorded)
next
  fix k msg
  assume a: "k < length chunks \<and>
        attempts g api_key model_name chunks w ! k = Raise (Exception msg)"
  show "translated_text (session_state (translate_chunks g api_key model_name chunks ss tr w)) =
        concat (take k (map recorded (attempts g api_key model_name chunks w))) @
        translate_error_prefix @ msg @
        concat (drop (Suc k) (map recorded (attempts g api_key model_name chunks w)))"
    by (rule failure_inline [OF conjunct1 [OF a] conjunct2 [OF a]])
qed

theorem translate_text_never_raises_witness:
  "fst (translate_body stub_genai [72, 105] [107] [109] 1) = Raise (Exception quota) \<and>
   translate_text stub_genai [72, 105] [107] [109] 1 =
     (Return (translate_error_prefix @ quota), 2) \<and>
   fst (translate_body stub_genai [72, 105] [107] [109] 0) = Return [74, 80, 48] \<and>
   translate_text stub_genai [72, 105] [107] [109] 0 = (Return [74, 80, 48], 1) \<and>
   attempts stub_genai [107] [109] [[97], [98], [99]] 0 ! 1 = Raise (Exception quota) \<and>
   translated_text (session_state (translate_chunks stub_genai [107] [109] [[97], [98], [99]]
       \<lparr>translated_text = [], original_text = Some [97, 98, 99]\<rparr> [] 0)) =
     [74, 80, 48] @ translate_error_prefix @ quota @ [74, 80, 50]"
proof -
  let ?ss = "\<lparr>translated_text = [], original_text = Some [97, 98, 99]\<rparr>"
  note inst = translate_text_never_raises [of stub_genai "[72, 105]" "[107]" "[109]" _
      "[[97], [98], [99]]" ?ss "[]"]
  have b1: "fst (translate_body stub_genai [72, 105] [107] [109] 1) = Raise (Exception quota)"
    and b0: "fst (translate_body stub_genai [72, 105] [107] [109] 0) = Return [74, 80, 48]"
    by (simp_all add: stub_body)
  from inst [of 1, THEN conjunct1] b1
  have t1: "translate_text stub_genai [72, 105] [107] [109] 1 =
      (Return (translate_error_prefix @ quota), 2)"
    by (auto simp: stub_body)
  from inst [of 0, THEN conjunct1] b0
  have t0: "translate_text stub_genai [72, 105] [107] [109] 0 = (Return [74, 80, 48], 1)"
    by (auto simp: stub_body)
  have att: "attempts stub_genai [107] [109] [[97], [98], [99]] 0 =
      [Return [74, 80, 48], Raise (Exception quota), Return [74, 80, 50]]"
    by (simp add: stub_body)
  then have at1: "attempts stub_genai [107] [109] [[97], [98], [99]] 0 ! 1 =
      Raise (Exception quota)"
    by simp
  have k: "1 < length [[97], [98], [99 :: nat]]"
    by simp
  from inst [of 0, THEN conjunct2, rule_format, of 1 quota] k at1
  have "translated_text (session_state (translate_chunks stub_genai [107] [109]
       [[97], [98], [99]] ?ss [] 0)) =
     concat (take 1 (map recorded (attempts stub_genai [107] [109] [[97], [98], [99]] 0))) @
     translate_error_prefix @ quota @
     concat (drop (Suc 1) (map recorded (attempts stub_genai [107] [109] [[97], [98], [99]] 0)))"
    by blast
  also have "\<dots> = [74, 80, 48] @ translate_error_prefix @ quota @ [74, 80, 50]"
    unfolding att by simp
  finally have ft: "translated_text (session_state (translate_chunks stub_genai [107] [109]
       [[97], [98], [99]] ?ss [] 0)) =
     [74, 80, 48] @ translate_error_prefix @ quota @ [74, 80, 50]" .
  from b1 t1 b0 t0 at1 ft show ?thesis by (intro conjI) assumption+
qed

text \<open>
  The claim as stated adds that the prefix makes failed regions distinguishable. It does
  not: a request that is refused and a request that is answered with the text of that
  refusal give the same returned string.
\<close>

theorem translate_text_marker_counterexample:
  "fst (translate_body mimic_genai [72, 105] [107] [109] 1) = Raise (Exception quota) \<and>
   fst (translate_body mimic_genai [72, 105] [107] [109] 0) =
     Return (translate_error_prefix @ quota) \<and>
   fst (translate_text mimic_genai [72, 105] [107] [109] 1) =
     fst (translate_text mimic_genai [72, 105] [107] [109] 0)"
  by (simp add: mimic_body translate_text_recorded)

section \<open>Failures stay where they happen\<close>

text \<open>
  Claim C2. In a run over the chunks the loop ends without an exception, whatever the
  remote service did at each chunk. The translator is called on every chunk, in order. The
  sequence of results has one entry per chunk: where the attempt at index \<open>k\<close> raised, entry
  \<open>k\<close> is the error description (the prefix and the exception's text); where it returned,
  entry \<open>k\<close> is the text returned. No exception leaves the run.
\<close>

theorem translator_failure_is_isolated:
  "\<exists>st. translation_loop g api_key model_name (length chunks) 0 chunks
            \<lparr>translated_chunks = [], trace = tr, world = w\<rparr> = (None, st) \<and>
     length (translated_chunks st) = length chunks \<and>
     translate_calls (trace st) = translate_calls tr @ chunks \<and>
     (\<forall>k<length chunks. \<forall>msg.
        attempts g api_key model_name chunks w ! k = Raise (Exception msg) \<longrightarrow>
        translated_chunks st ! k = translate_error_prefix @ msg) \<and>
     (\<forall>k<length chunks. \<forall>t.
        attempts g api_key model_name chunks w ! k = Return t \<longrightarrow>
        translated_chunks st ! k = t) \<and>
     raised (translate_chunks g api_key model_name chunks ss tr w) = None"
  by (simp add: translation_loop_from_start translate_chunks_run translate_calls_append
      translate_calls_iterations length_attempts)

theorem translator_failure_is_isolated_witness:
  "attempts stub_genai [107] [109] [[97], [98], [99]] 0 =
     [Return [74, 80, 48], Raise (Exception quota), Return [74, 80, 50]] \<and>
   translation_loop stub_genai [107] [109] 3 0 [[97], [98], [99]]
      \<lparr>translated_chunks = [], trace = [], world = 0\<rparr> =
     (None,
      \<lparr>translated_chunks = [[74, 80, 48], translate_error_prefix @ quota, [74, 80, 50]],
       trace = [TranslateCall [97] [107] [109], ProgressUpdate 1 3, TextArea [74, 80, 48],
                Sleep 1,
                TranslateCall [98] [107] [109], ProgressUpdate 2 3,
                TextArea ([74, 80, 48] @ translate_error_prefix @ quota), Sleep 1,
                TranslateCall [99] [107] [109], ProgressUpdate 3 3,
                TextArea ([74, 80, 48] @ translate_error_prefix @ quota @ [74, 80, 50]),
                Sleep 1],
       world = 3\<rparr>)"
  using translator_failure_is_isolated [of stub_genai "[107]" "[109]" "[[97], [98], [99]]" "[]" 0]
  by (simp add: stub_body translate_text_recorded join_empty)

section \<open>Progress events\<close>

text \<open>
  Claim C3. A run over \<open>N\<close> chunks updates the progress bar exactly \<open>N\<close> times, once after
  each chunk resolves: for every index \<open>i\<close> the update with completed count \<open>i + 1\<close> comes
  directly after the translator call for chunk \<open>i\<close> and directly before the display of the
  \<open>i + 1\<close> results recorded so far, and what precedes that call holds the calls for the
  chunks before \<open>i\<close> and the updates \<open>1, ..., i\<close>. The updates carry the completed counts
  \<open>1, 2, ..., N\<close> in this order, each with the total \<open>N\<close>, so that the last one (when there
  is a chunk at all) has the completed count equal to the total. The bar is created at 0
  before the loop (line 127); that creation is the event \<open>ProgressCreate\<close>, not an update.
\<close>

theorem one_progress_event_per_chunk:
  "(\<forall>i<length chunks. \<exists>pre post.
      ui (translate_chunks g api_key model_name chunks ss tr w) =
        pre @ [TranslateCall (chunks ! i) api_key model_name,
               ProgressUpdate (i + 1) (length chunks),
               TextArea (concat (take (i + 1)
                  (map recorded (attempts g api_key model_name chunks w)))),
               Sleep 1] @ post \<and>
      translate_calls pre = translate_calls tr @ take i chunks \<and>
      progress_events pre =
        progress_events tr @ map (\<lambda>j. (j + 1, length chunks)) [0..<i]) \<and>
   progress_events (ui (translate_chunks g api_key model_name chunks ss tr w)) =
     progress_events tr @ map (\<lambda>i. (i + 1, length chunks)) [0..<length chunks] \<and>
   length (map (\<lambda>i. (i + 1, length chunks)) [0..<length chunks]) = length chunks \<and>
   map fst (map (\<lambda>i. (i + 1, length chunks)) [0..<length chunks]) = [1..<length chunks + 1] \<and>
   (chunks \<noteq> [] \<longrightarrow>
      last (progress_events (ui (translate_chunks g api_key model_name chunks ss tr w))) =
        (length chunks, length chunks))"
proof -
  let ?N = "length chunks"
  have pos: "\<forall>i<length chunks. \<exists>pre post.
      ui (translate_chunks g api_key model_name chunks ss tr w) =
        pre @ [TranslateCall (chunks ! i) api_key model_name,
               ProgressUpdate (i + 1) (length chunks),
               TextArea (concat (take (i + 1)
                  (map recorded (attempts g api_key model_name chunks w)))),
               Sleep 1] @ post \<and>
      translate_calls pre = translate_calls tr @ take i chunks \<and>
      progress_events pre =
        progress_events tr @ map (\<lambda>j. (j + 1, length chunks)) [0..<i]"
    by (intro allI impI) (rule translate_chunks_update_position)
  have ev: "progress_events (ui (translate_chunks g api_key model_name chunks ss tr w)) =
      progress_events tr @ map (\<lambda>i. (i + 1, ?N)) [0..<?N]"
    using progress_events_iterations [of api_key model_name ?N 0 "\<lambda>j. chunks ! j" _ ?N]
    by (simp add: translate_chunks_run progress_events_append)
  have vals: "map fst (map (\<lambda>i. (i + 1, ?N)) [0..<?N]) = [1..<?N + 1]"
    by (simp add: comp_def map_Suc_upt)
  have len: "length (map (\<lambda>i. (i + 1, ?N)) [0..<?N]) = ?N"
    by simp
  have fin: "chunks \<noteq> [] \<longrightarrow>
      last (progress_events (ui (translate_chunks g api_key model_name chunks ss tr w))) = (?N, ?N)"
  proof
    assume "chunks \<noteq> []"
    then obtain n where n: "?N = Suc n" by (cases chunks) auto
    show "last (progress_events (ui (translate_chunks g api_key model_name chunks ss tr w))) = (?N, ?N)"
      unfolding ev by (simp add: n)
  qed
  from pos ev len vals fin show ?thesis by (intro conjI) assumption+
qed

theorem one_progress_event_per_chunk_witness:
  "ui (translate_chunks stub_genai [107] [109] [[97], [98], [99]]
       \<lparr>translated_text = [], original_text = Some [97, 98, 99]\<rparr> [StSuccessExtracted] 0) =
     [StSuccessExtracted, ProgressCreate,
      TranslateCall [97] [107] [109], ProgressUpdate 1 3, TextArea [74, 80, 48], Sleep 1,
      TranslateCall [98] [107] [109], ProgressUpdate 2 3,
      TextArea ([74, 80, 48] @ translate_error_prefix @ quota), Sleep 1,
      TranslateCall [99] [107] [109], ProgressUpdate 3 3,
      TextArea ([74, 80, 48] @ translate_error_prefix @ quota @ [74, 80, 50]), Sleep 1,
      ProgressEmpty, StSuccessDone] \<and>
   progress_events (ui (translate_chunks stub_genai [107] [109] [[97], [98], [99]]
       \<lparr>translated_text = [], original_text = Some [97, 98, 99]\<rparr> [StSuccessExtracted] 0)) =
     [(1, 3), (2, 3), (3, 3)] \<and> [[97], [98], [99]] \<noteq> ([] :: str list)"
proof -
  have three: "[0..<length [[97], [98], [99 :: nat]]] = [0, 1, 2]"
    by code_simp
  have tr: "ui (translate_chunks stub_genai [107] [109] [[97], [98], [99]]
       \<lparr>translated_text = [], original_text = Some [97, 98, 99]\<rparr> [StSuccessExtracted] 0) =
     [StSuccessExtracted, ProgressCreate,
      TranslateCall [97] [107] [109], ProgressUpdate 1 3, TextArea [74, 80, 48], Sleep 1,
      TranslateCall [98] [107] [109], ProgressUpdate 2 3,
      TextArea ([74, 80, 48] @ translate_error_prefix @ quota), Sleep 1,
      TranslateCall [99] [107] [109], ProgressUpdate 3 3,
      TextArea ([74, 80, 48] @ translate_error_prefix @ quota @ [74, 80, 50]), Sleep 1,
      ProgressEmpty, StSuccessDone]"
    unfolding translate_chunks_run three by (simp add: stub_body iteration_def)
  have "progress_events (ui (translate_chunks stub_genai [107] [109] [[97], [98], [99]]
       \<lparr>translated_text = [], original_text = Some [97, 98, 99]\<rparr> [StSuccessExtracted] 0)) =
     progress_events [StSuccessExtracted] @
       map (\<lambda>i. (i + 1, length [[97], [98], [99 :: nat]])) [0..<length [[97], [98], [99 :: nat]]]"
    by (rule one_progress_event_per_chunk [of "[[97], [98], [99]]" stub_genai "[107]" "[109]"
      "\<lparr>translated_text = [], original_text = Some [97, 98, 99]\<rparr>" "[StSuccessExtracted]" 0,
      THEN conjunct2, THEN conjunct1])
  also have "\<dots> = [(1, 3), (2, 3), (3, 3)]"
    by code_simp
  finally have pe: "progress_events (ui (translate_chunks stub_genai [107] [109] [[97], [98], [99]]
       \<lparr>translated_text = [], original_text = Some [97, 98, 99]\<rparr> [StSuccessExtracted] 0)) =
     [(1, 3), (2, 3), (3, 3)]" .
  have ne: "[[97], [98], [99]] \<noteq> ([] :: str list)" by simp
  from tr pe ne show ?thesis by (intro conjI) assumption+
qed

section \<open>Assembling the final text\<close>

text \<open>
  Claim C7. The final text stored by a run is the concatenation of the strings of the
  chunks (the translation, or the error description where the attempt failed) in chunk
  order, with nothing between them: joining with the empty separator is concatenation.
\<close>

theorem final_text_is_plain_concatenation:
  "translated_text (session_state (translate_chunks g api_key model_name chunks ss tr w)) =
     concat (map recorded (attempts g api_key model_name chunks w)) \<and>
   join [] results = concat results"
  by (simp add: translate_chunks_run join_empty)

theorem final_text_is_plain_concatenation_witness:
  "translated_text (session_state (translate_chunks stub_genai [107] [109] [[97], [98], [99]]
       \<lparr>translated_text = [], original_text = Some [97, 98, 99]\<rparr> [] 0)) =
     [74, 80, 48] @ translate_error_prefix @ quota @ [74, 80, 50]"
proof -
  have "translated_text (session_state (translate_chunks stub_genai [107] [109] [[97], [98], [99]]
       \<lparr>translated_text = [], original_text = Some [97, 98, 99]\<rparr> [] 0)) =
     concat (map recorded (attempts stub_genai [107] [109] [[97], [98], [99]] 0))"
    using final_text_is_plain_concatenation [of stub_genai "[107]" "[109]" "[[97], [98], [99]]"
      "\<lparr>translated_text = [], original_text = Some [97, 98, 99]\<rparr>" "[]" 0]
    by (rule conjunct1)
  also have "\<dots> = [74, 80, 48] @ translate_error_prefix @ quota @ [74, 80, 50]"
    by (simp add: stub_body)
  finally show ?thesis .
qed

section \<open>Pacing\<close>

text \<open>
  Claim C8. The effects of a run are, for each chunk in order: the translator call, the
  progress update, the refreshed display of the results so far, and then
  \<^verbatim>\<open>time.sleep(1)\<close>. So a delay of one unit follows the recording of every chunk's result
  and its progress update, and precedes the translator call of the next chunk.
\<close>

theorem pacing_delay_after_every_chunk:
  "ui (translate_chunks g api_key model_name chunks ss tr w) =
     tr @ [ProgressCreate] @
     concat (map (\<lambda>i. [TranslateCall (chunks ! i) api_key model_name,
                        ProgressUpdate (i + 1) (length chunks),
                        TextArea (concat (take (i + 1)
                           (map recorded (attempts g api_key model_name chunks w)))),
                        Sleep 1])
               [0..<length chunks]) @
     [ProgressEmpty, StSuccessDone]"
  by (simp add: translate_chunks_run iteration_def)

theorem pacing_delay_after_every_chunk_witness:
  "ui (translate_chunks stub_genai [107] [109] [[97], [98]]
       \<lparr>translated_text = [], original_text = Some [97, 98]\<rparr> [] 0) =
     [ProgressCreate,
      TranslateCall [97] [107] [109], ProgressUpdate 1 2, TextArea [74, 80, 48], Sleep 1,
      TranslateCall [98] [107] [109], ProgressUpdate 2 2,
      TextArea ([74, 80, 48] @ translate_error_prefix @ quota), Sleep 1,
      ProgressEmpty, StSuccessDone]"
proof -
  have two: "[0..<length [[97], [98 :: nat]]] = [0, 1]"
    by code_simp
  show ?thesis
    unfolding pacing_delay_after_every_chunk [of stub_genai "[107]" "[109]" "[[97], [98]]"
      "\<lparr>translated_text = [], original_text = Some [97, 98]\<rparr>" "[]" 0] two
    by (simp add: stub_body)
qed

section \<open>No text, no run\<close>

text \<open>
  Claim C9. When the extraction yields \<^verbatim>\<open>None\<close>, the click does nothing more than show the
  error notice of line 33: the splitter and the translator are not called, the world is
  untouched, no exception is raised, and the stored translation stays empty.
\<close>

theorem no_run_without_extracted_text:
  "fst (extract_text_from_pdf uploaded_file) = None \<Longrightarrow>
   \<exists>msg. app_click g splitter api_key model_name chunk_size chunk_overlap uploaded_file w =
     \<lparr>session_state = \<lparr>translated_text = [], original_text = None\<rparr>,
      ui = [StError (pdf_error_prefix @ msg)], remote = w, raised = None\<rparr>"
  by (auto simp: app_click_def extract_text_from_pdf_def split: outcome.splits exn.splits)

theorem no_run_without_extracted_text_witness:
  "fst (extract_text_from_pdf (Return [Return (Some [97]), Raise (Exception [98, 97, 100])])) = None \<and>
   (\<exists>msg. app_click stub_genai (\<lambda>s ov text. (Inr [text] :: unit + str list)) [107] [109] 1500 200
      (Return [Return (Some [97]), Raise (Exception [98, 97, 100])]) 0 =
     \<lparr>session_state = \<lparr>translated_text = [], original_text = None\<rparr>,
      ui = [StError (pdf_error_prefix @ msg)], remote = 0, raised = None\<rparr>)"
proof -
  have h: "fst (extract_text_from_pdf (Return [Return (Some [97]), Raise (Exception [98, 97, 100])])) = None"
    by (simp add: extract_text_from_pdf_def)
  show ?thesis
    using h no_run_without_extracted_text [OF h, of stub_genai
        "\<lambda>s ov text. (Inr [text] :: unit + str list)" "[107]" "[109]" 1500 200 0]
    by simp
qed

section \<open>Lemmas about the chunker of the specification\<close>

lemma latest_boundary_bounds:
  "latest_boundary ws seg lo p = Some q \<Longrightarrow> lo < q \<and> q \<le> p"
  by (induction p) (auto split: if_splits)

lemma cut_bounds:
  "overlap < chunkSize \<Longrightarrow>
   overlap < cut ws W chunkSize overlap seg \<and> cut ws W chunkSize overlap seg \<le> chunkSize"
  by (auto simp: cut_def split: option.splits dest: latest_boundary_bounds)

lemma walk_lossless:
  "overlap < chunkSize \<Longrightarrow>
   concat (map without_overlap (walk ws W chunkSize overlap T idx pos)) =
     drop (pos + (if idx = 0 then 0 else overlap)) T"
proof (induction ws W chunkSize overlap T idx pos rule: walk.induct)
  case (1 ws W chunkSize overlap T idx pos)
  let ?ov = "if idx = 0 then 0 else overlap"
  show ?case
  proof (cases "length T \<le> pos")
    case True
    then show ?thesis by (simp add: walk.simps)
  next
    case inside: False
    show ?thesis
    proof (cases "length T - pos \<le> chunkSize")
      case True
      with inside "1.prems" show ?thesis
        by (simp add: walk.simps without_overlap_def add.commute)
    next
      case False
      define e where "e = pos + cut ws W chunkSize overlap (drop pos T)"
      from cut_bounds [OF "1.prems", of ws W "drop pos T"]
      have e: "pos + overlap < e" "e \<le> pos + chunkSize" by (simp_all add: e_def)
      with False have eT: "e < length T" by simp
      have unfold: "walk ws W chunkSize overlap T idx pos =
          \<lparr>chunk_index = idx, chunk_start = pos, chunk_end = e,
           chunk_text = take (e - pos) (drop pos T), overlapWithPrevious = ?ov\<rparr>
          # walk ws W chunkSize overlap T (idx + 1) (e - overlap)"
        using inside False "1.prems" by (subst walk.simps) (simp add: e_def Let_def)
      have rest: "concat (map without_overlap (walk ws W chunkSize overlap T (idx + 1) (e - overlap))) =
          drop e T"
        using "1.IH" [OF _ False e_def "1.prems"] inside "1.prems" e by simp
      have first: "drop ?ov (take (e - pos) (drop pos T)) = take (e - (pos + ?ov)) (drop (pos + ?ov) T)"
        by (simp add: drop_take add.commute)
      have "take (e - (pos + ?ov)) (drop (pos + ?ov) T) @ drop e T = drop (pos + ?ov) T"
      proof -
        have "drop e T = drop (e - (pos + ?ov)) (drop (pos + ?ov) T)"
          using e by simp
        then show ?thesis by (simp only: append_take_drop_id)
      qed
      moreover have "without_overlap
          \<lparr>chunk_index = idx, chunk_start = pos, chunk_end = e,
           chunk_text = take (e - pos) (drop pos T), overlapWithPrevious = ?ov\<rparr> =
          take (e - (pos + ?ov)) (drop (pos + ?ov) T)"
        using first by (simp add: without_overlap_def)
      ultimately show ?thesis
        by (simp only: unfold list.map concat.simps rest)
    qed
  qed
qed

lemma walk_first:
  assumes "overlap < chunkSize" "pos < length T"
  shows "\<exists>c cs. walk ws W chunkSize overlap T idx pos = c # cs \<and> chunk_start c = pos \<and>
           chunk_index c = idx \<and> overlapWithPrevious c = (if idx = 0 then 0 else overlap) \<and>
           (chunk_end c = length T \<or> pos + overlap < chunk_end c)"
  using assms cut_bounds [OF assms(1), of ws W "drop pos T"]
  by (subst walk.simps) (simp add: Let_def)

lemma walk_chained:
  "overlap < chunkSize \<Longrightarrow> chained overlap (walk ws W chunkSize overlap T idx pos)"
proof (induction ws W chunkSize overlap T idx pos rule: walk.induct)
  case (1 ws W chunkSize overlap T idx pos)
  show ?case
  proof (cases "length T \<le> pos \<or> length T - pos \<le> chunkSize")
    case True
    then show ?thesis by (subst walk.simps) auto
  next
    case False
    define e where "e = pos + cut ws W chunkSize overlap (drop pos T)"
    from cut_bounds [OF "1.prems", of ws W "drop pos T"]
    have e: "pos + overlap < e" "e \<le> pos + chunkSize" by (simp_all add: e_def)
    with False have eT: "e - overlap < length T" and eT': "e < length T" by arith+
    from walk_first [OF "1.prems" eT, of ws W "idx + 1"]
    obtain d ds where d: "walk ws W chunkSize overlap T (idx + 1) (e - overlap) = d # ds"
      "chunk_start d = e - overlap" "chunk_index d = idx + 1" "overlapWithPrevious d = overlap"
      and "chunk_end d = length T \<or> e - overlap + overlap < chunk_end d"
      by auto
    with e eT' have further: "e < chunk_end d" by auto
    have g: "\<not> (chunkSize \<le> overlap \<or> length T \<le> pos)" "\<not> length T - pos \<le> chunkSize"
      using False "1.prems" by auto
    have IH: "chained overlap (d # ds)"
      using "1.IH" [OF g e_def "1.prems"] d(1) by simp
    have unfold: "walk ws W chunkSize overlap T idx pos =
        \<lparr>chunk_index = idx, chunk_start = pos, chunk_end = e,
         chunk_text = take (e - pos) (drop pos T),
         overlapWithPrevious = (if idx = 0 then 0 else overlap)\<rparr> # d # ds"
      using False "1.prems" d(1) by (subst walk.simps) (simp add: e_def Let_def)
    show ?thesis
      unfolding unfold using IH d e further by simp
  qed
qed

lemma chained_nth:
  "chained ov cs \<Longrightarrow> Suc i < length cs \<Longrightarrow>
   chunk_start (cs ! Suc i) + ov = chunk_end (cs ! i) \<and> overlapWithPrevious (cs ! Suc i) = ov \<and>
   chunk_index (cs ! Suc i) = chunk_index (cs ! i) + 1 \<and>
   chunk_start (cs ! i) < chunk_start (cs ! Suc i) \<and> chunk_end (cs ! i) < chunk_end (cs ! Suc i)"
proof (induction ov cs arbitrary: i rule: chained.induct)
  case (1 ov c d cs)
  then show ?case by (cases i) simp_all
qed simp_all

lemma walk_chunk:
  "overlap < chunkSize \<Longrightarrow> c \<in> set (walk ws W chunkSize overlap T idx pos) \<Longrightarrow>
   length (chunk_text c) \<le> chunkSize \<and>
   chunk_text c = take (chunk_end c - chunk_start c) (drop (chunk_start c) T) \<and>
   chunk_start c < chunk_end c \<and> chunk_end c \<le> length T"
proof (induction ws W chunkSize overlap T idx pos rule: walk.induct)
  case (1 ws W chunkSize overlap T idx pos)
  show ?case
  proof (cases "length T \<le> pos \<or> length T - pos \<le> chunkSize")
    case True
    with "1.prems" show ?thesis by (subst (asm) walk.simps) (auto split: if_splits)
  next
    case False
    define e where "e = pos + cut ws W chunkSize overlap (drop pos T)"
    from cut_bounds [OF "1.prems"(1), of ws W "drop pos T"]
    have e: "pos + overlap < e" "e \<le> pos + chunkSize" by (simp_all add: e_def)
    with False have eT: "e < length T" by arith
    have unfold: "walk ws W chunkSize overlap T idx pos =
        \<lparr>chunk_index = idx, chunk_start = pos, chunk_end = e,
         chunk_text = take (e - pos) (drop pos T),
         overlapWithPrevious = (if idx = 0 then 0 else overlap)\<rparr>
        # walk ws W chunkSize overlap T (idx + 1) (e - overlap)"
      using False "1.prems"(1) by (subst walk.simps) (simp add: e_def Let_def)
    from "1.prems"(2) [unfolded unfold]
    consider "c = \<lparr>chunk_index = idx, chunk_start = pos, chunk_end = e,
         chunk_text = take (e - pos) (drop pos T),
         overlapWithPrevious = (if idx = 0 then 0 else overlap)\<rparr>"
      | "c \<in> set (walk ws W chunkSize overlap T (idx + 1) (e - overlap))"
      by auto
    then show ?thesis
    proof cases
      case 1
      with e eT show ?thesis by simp
    next
      case 2
      have g: "\<not> (chunkSize \<le> overlap \<or> length T \<le> pos)" "\<not> length T - pos \<le> chunkSize"
        using False "1.prems"(1) by auto
      show ?thesis
        by (rule "1.IH" [OF g e_def "1.prems"(1) 2])
    qed
  qed
qed
lemma chained_overlaps:
  "chained ov (c # rest) \<Longrightarrow> d \<in> set rest \<Longrightarrow> overlapWithPrevious d = ov"
  by (induction rest arbitrary: c) auto

lemma walk_remove_overlaps:
  assumes "overlap < chunkSize"
  shows "remove_overlaps overlap (map chunk_text (walk ws W chunkSize overlap T 0 0)) = T"
proof (cases "T = []")
  case True
  then show ?thesis by (simp add: walk.simps)
next
  case False
  then have "0 < length T" by simp
  from walk_first [OF assms this, of ws W 0]
  obtain c rest where cs: "walk ws W chunkSize overlap T 0 0 = c # rest"
    and first: "overlapWithPrevious c = 0"
    by auto
  from walk_chained [OF assms, of ws W T 0 0] have "chained overlap (c # rest)"
    by (simp add: cs)
  then have "map without_overlap rest = map (drop overlap) (map chunk_text rest)"
    by (auto simp: without_overlap_def dest: chained_overlaps)
  moreover have "without_overlap c = chunk_text c"
    by (simp add: without_overlap_def first)
  ultimately have "remove_overlaps overlap (map chunk_text (c # rest)) =
      concat (map without_overlap (c # rest))"
    by (simp only: list.map remove_overlaps.simps concat.simps)
  with walk_lossless [OF assms, of ws W T 0 0] show ?thesis
    by (simp add: cs)
qed

lemma slices_share:
  fixes T :: str
  assumes "tc = take (ec - sc) (drop sc T)" "td = take (ed - sd) (drop sd T)"
    and "ec \<le> length T" "sd + ov = ec" "sc < sd" "ec < ed"
  shows "take ov td = drop (length tc - ov) tc"
proof -
  from assms have len: "length tc = ec - sc" by simp
  from assms have "ov \<le> ed - sd" by arith
  then have left: "take ov td = take ov (drop sd T)"
    by (simp add: assms(2) min_absorb1)
  from assms have sd: "ec - sc - ov + sc = sd" "ec - sc - (ec - sc - ov) = ov" by arith+
  have "drop (ec - sc - ov) (take (ec - sc) (drop sc T)) =
      take (ec - sc - (ec - sc - ov)) (drop (ec - sc - ov + sc) T)"
    by (simp only: drop_take drop_drop)
  also have "\<dots> = take ov (drop sd T)"
    by (simp only: sd)
  finally have "drop (length tc - ov) tc = take ov (drop sd T)"
    by (simp only: len assms(1) flip: assms(1))
  with left show ?thesis by simp
qed

lemma no_boundary:
  "\<forall>q < p. \<not> ws (seg ! q) \<Longrightarrow> latest_boundary ws seg lo p = None"
  by (induction p) simp_all

lemma cut_replicate:
  "\<not> ws a \<Longrightarrow> chunkSize \<le> n \<Longrightarrow> cut ws W chunkSize overlap (replicate n a) = chunkSize"
  by (simp add: cut_def no_boundary)

lemma example_3400:
  "walk is_space 100 1500 200 (replicate 3400 97) 0 0 =
     [\<lparr>chunk_index = 0, chunk_start = 0, chunk_end = 1500,
        chunk_text = replicate 1500 97, overlapWithPrevious = 0\<rparr>,
      \<lparr>chunk_index = 1, chunk_start = 1300, chunk_end = 2800,
        chunk_text = replicate 1500 97, overlapWithPrevious = 200\<rparr>,
      \<lparr>chunk_index = 2, chunk_start = 2600, chunk_end = 3400,
        chunk_text = replicate 800 97, overlapWithPrevious = 200\<rparr>]"
  by (simp add: walk.simps cut_replicate is_space_def)




section \<open>Lossless coverage\<close>

text \<open>
  Claim C1, for the chunker of the specification. For every text, every chunk size and every
  overlap with \<open>0 \<le> overlap < chunkSize\<close> (and every choice of boundary characters and
  lookback window) the chunker returns chunks, and concatenating their texts with the
  overlap regions removed (the first \<open>overlap\<close> characters of every chunk but the first)
  gives the text back: no character is dropped.
\<close>

theorem chunks_reconstruct_text:
  "0 \<le> overlap \<Longrightarrow> overlap < chunkSize \<Longrightarrow>
   \<exists>cs. chunker_split ws W T chunkSize overlap = Inr cs \<and>
        remove_overlaps (nat overlap) (map chunk_text cs) = T"
proof -
  assume a: "0 \<le> overlap" "overlap < chunkSize"
  then have "nat overlap < nat chunkSize" by simp
  from walk_remove_overlaps [OF this, of ws W T] a show ?thesis
    by (simp add: chunker_split_def)
qed

theorem chunks_reconstruct_text_witness:
  "(0 :: int) \<le> 2 \<and> (2 :: int) < 5 \<and>
   chunker_split is_space 3 [97, 98, 99, 32, 100, 101, 102, 103, 104, 105, 106, 107] 5 2 =
     Inr [\<lparr>chunk_index = 0, chunk_start = 0, chunk_end = 4,
            chunk_text = [97, 98, 99, 32], overlapWithPrevious = 0\<rparr>,
          \<lparr>chunk_index = 1, chunk_start = 2, chunk_end = 7,
            chunk_text = [99, 32, 100, 101, 102], overlapWithPrevious = 2\<rparr>,
          \<lparr>chunk_index = 2, chunk_start = 5, chunk_end = 10,
            chunk_text = [101, 102, 103, 104, 105], overlapWithPrevious = 2\<rparr>,
          \<lparr>chunk_index = 3, chunk_start = 8, chunk_end = 12,
            chunk_text = [104, 105, 106, 107], overlapWithPrevious = 2\<rparr>] \<and>
   remove_overlaps 2 [[97, 98, 99, 32], [99, 32, 100, 101, 102], [101, 102, 103, 104, 105],
       [104, 105, 106, 107]] =
     [97, 98, 99, 32, 100, 101, 102, 103, 104, 105, 106, 107]"
proof -
  have run: "chunker_split is_space 3 [97, 98, 99, 32, 100, 101, 102, 103, 104, 105, 106, 107] 5 2 =
     Inr [\<lparr>chunk_index = 0, chunk_start = 0, chunk_end = 4,
            chunk_text = [97, 98, 99, 32], overlapWithPrevious = 0\<rparr>,
          \<lparr>chunk_index = 1, chunk_start = 2, chunk_end = 7,
            chunk_text = [99, 32, 100, 101, 102], overlapWithPrevious = 2\<rparr>,
          \<lparr>chunk_index = 2, chunk_start = 5, chunk_end = 10,
            chunk_text = [101, 102, 103, 104, 105], overlapWithPrevious = 2\<rparr>,
          \<lparr>chunk_index = 3, chunk_start = 8, chunk_end = 12,
            chunk_text = [104, 105, 106, 107], overlapWithPrevious = 2\<rparr>]"
    by code_simp
  from chunks_reconstruct_text [of 2 5 is_space 3
      "[97, 98, 99, 32, 100, 101, 102, 103, 104, 105, 106, 107]"]
  show ?thesis
    unfolding run by simp
qed

section \<open>Chunk length and overlap\<close>

text \<open>
  Claim C4, for the chunker of the specification. For every valid configuration every chunk
  is a piece of the text of at most \<open>chunkSize\<close> characters, and each chunk after the first
  begins exactly \<open>overlap\<close> characters before the end of the chunk before it and ends after
  it, so that the two share exactly these characters: the last \<open>overlap\<close> characters of the
  one are the first \<open>overlap\<close> characters of the other. This holds for the final pair as
  well. The example of the
  claim is the witness: a text of 3400 characters none of which is a boundary, with chunk
  size 1500 and overlap 200, gives the three chunks at offsets 0 to 1500, 1300 to 2800 and
  2600 to 3400.
\<close>

theorem chunks_bounded_and_overlapping:
  "0 \<le> overlap \<Longrightarrow> overlap < chunkSize \<Longrightarrow>
   \<exists>cs. chunker_split ws W T chunkSize overlap = Inr cs \<and>
     (\<forall>c \<in> set cs. int (length (chunk_text c)) \<le> chunkSize \<and>
        chunk_text c = take (chunk_end c - chunk_start c) (drop (chunk_start c) T) \<and>
        chunk_start c < chunk_end c \<and> chunk_end c \<le> length T) \<and>
     (\<forall>i. Suc i < length cs \<longrightarrow>
        int (chunk_end (cs ! i)) - int (chunk_start (cs ! Suc i)) = overlap \<and>
        chunk_start (cs ! i) < chunk_start (cs ! Suc i) \<and>
        chunk_start (cs ! Suc i) \<le> chunk_end (cs ! i) \<and>
        chunk_end (cs ! i) < chunk_end (cs ! Suc i) \<and>
        overlapWithPrevious (cs ! Suc i) = nat overlap \<and>
        take (nat overlap) (chunk_text (cs ! Suc i)) =
          drop (length (chunk_text (cs ! i)) - nat overlap) (chunk_text (cs ! i)))"
proof -
  assume a: "0 \<le> overlap" "overlap < chunkSize"
  let ?cs = "walk ws W (nat chunkSize) (nat overlap) T 0 0"
  from a have lt: "nat overlap < nat chunkSize" by simp
  from a have split: "chunker_split ws W T chunkSize overlap = Inr ?cs"
    by (simp add: chunker_split_def)
  have each: "\<forall>c \<in> set ?cs. int (length (chunk_text c)) \<le> chunkSize \<and>
        chunk_text c = take (chunk_end c - chunk_start c) (drop (chunk_start c) T) \<and>
        chunk_start c < chunk_end c \<and> chunk_end c \<le> length T"
  proof
    fix c assume "c \<in> set ?cs"
    from walk_chunk [OF lt this] a
    show "int (length (chunk_text c)) \<le> chunkSize \<and>
        chunk_text c = take (chunk_end c - chunk_start c) (drop (chunk_start c) T) \<and>
        chunk_start c < chunk_end c \<and> chunk_end c \<le> length T"
      by linarith
  qed
  have pairs: "\<forall>i. Suc i < length ?cs \<longrightarrow>
        int (chunk_end (?cs ! i)) - int (chunk_start (?cs ! Suc i)) = overlap \<and>
        chunk_start (?cs ! i) < chunk_start (?cs ! Suc i) \<and>
        chunk_start (?cs ! Suc i) \<le> chunk_end (?cs ! i) \<and>
        chunk_end (?cs ! i) < chunk_end (?cs ! Suc i) \<and>
        overlapWithPrevious (?cs ! Suc i) = nat overlap \<and>
        take (nat overlap) (chunk_text (?cs ! Suc i)) =
          drop (length (chunk_text (?cs ! i)) - nat overlap) (chunk_text (?cs ! i))"
  proof (intro allI impI)
    fix i assume i: "Suc i < length ?cs"
    let ?c = "?cs ! i" and ?d = "?cs ! Suc i"
    from i have "?c \<in> set ?cs" "?d \<in> set ?cs" by simp_all
    from walk_chunk [OF lt this(1)] walk_chunk [OF lt this(2)]
    have tc: "chunk_text ?c = take (chunk_end ?c - chunk_start ?c) (drop (chunk_start ?c) T)"
      and td: "chunk_text ?d = take (chunk_end ?d - chunk_start ?d) (drop (chunk_start ?d) T)"
      and ec: "chunk_end ?c \<le> length T"
      by blast+
    from chained_nth [OF walk_chained [OF lt] i]
    have ch: "chunk_start ?d + nat overlap = chunk_end ?c" "overlapWithPrevious ?d = nat overlap"
      "chunk_start ?c < chunk_start ?d" "chunk_end ?c < chunk_end ?d"
      by blast+
    from slices_share [OF tc td ec ch(1) ch(3) ch(4)]
    have share: "take (nat overlap) (chunk_text ?d) =
        drop (length (chunk_text ?c) - nat overlap) (chunk_text ?c)" .
    from ch a have "int (chunk_end ?c) - int (chunk_start ?d) = overlap"
      "chunk_start ?d \<le> chunk_end ?c"
      by linarith+
    with ch share
    show "int (chunk_end ?c) - int (chunk_start ?d) = overlap \<and>
        chunk_start ?c < chunk_start ?d \<and>
        chunk_start ?d \<le> chunk_end ?c \<and>
        chunk_end ?c < chunk_end ?d \<and>
        overlapWithPrevious ?d = nat overlap \<and>
        take (nat overlap) (chunk_text ?d) =
          drop (length (chunk_text ?c) - nat overlap) (chunk_text ?c)"
      by blast
  qed
  from split each pairs show ?thesis by blast
qed

theorem chunks_bounded_and_overlapping_witness:
  "(0 :: int) \<le> 200 \<and> (200 :: int) < 1500 \<and>
   chunker_split is_space 100 (replicate 3400 97) 1500 200 =
     Inr [\<lparr>chunk_index = 0, chunk_start = 0, chunk_end = 1500,
            chunk_text = replicate 1500 97, overlapWithPrevious = 0\<rparr>,
          \<lparr>chunk_index = 1, chunk_start = 1300, chunk_end = 2800,
            chunk_text = replicate 1500 97, overlapWithPrevious = 200\<rparr>,
          \<lparr>chunk_index = 2, chunk_start = 2600, chunk_end = 3400,
            chunk_text = replicate 800 97, overlapWithPrevious = 200\<rparr>] \<and>
   length (replicate 1500 (97 :: nat)) = 1500 \<and> length (replicate 800 (97 :: nat)) = 800 \<and>
   int 1500 - int 1300 = 200 \<and> int 2800 - int 2600 = 200"
proof -
  have run: "chunker_split is_space 100 (replicate 3400 97) 1500 200 =
     Inr [\<lparr>chunk_index = 0, chunk_start = 0, chunk_end = 1500,
            chunk_text = replicate 1500 97, overlapWithPrevious = 0\<rparr>,
          \<lparr>chunk_index = 1, chunk_start = 1300, chunk_end = 2800,
            chunk_text = replicate 1500 97, overlapWithPrevious = 200\<rparr>,
          \<lparr>chunk_index = 2, chunk_start = 2600, chunk_end = 3400,
            chunk_text = replicate 800 97, overlapWithPrevious = 200\<rparr>]"
    by (simp add: chunker_split_def example_3400)
  from chunks_bounded_and_overlapping [of 200 1500 is_space 100 "replicate 3400 97"]
  show ?thesis
    unfolding run by simp
qed

section \<open>Invalid configurations\<close>




section \<open>Empty and short input\<close>

text \<open>
  Claim C6. When the extracted text is empty the click starts no run: no splitter call, no
  translator call, no progress update, and the stored translation is empty. The chunker of
  the specification returns no chunk for the empty text, and a run over no chunks makes no
  progress update and stores the empty text. For a text that is not empty and no longer
  than the chunk size, the chunker of the specification returns exactly one chunk, whose
  text is the whole input.
\<close>

theorem empty_and_short_input:
  "(fst (extract_text_from_pdf uploaded_file) = Some [] \<longrightarrow>
      app_click g splitter api_key model_name chunk_size chunk_overlap uploaded_file w =
        \<lparr>session_state = \<lparr>translated_text = [], original_text = Some []\<rparr>,
         ui = [], remote = w, raised = None\<rparr>) \<and>
   (0 \<le> overlap \<and> overlap < chunkSize \<longrightarrow>
      chunker_split ws W [] chunkSize overlap = Inr []) \<and>
   translate_chunks g api_key model_name [] ss tr w =
     \<lparr>session_state = ss\<lparr>translated_text := []\<rparr>,
      ui = tr @ [ProgressCreate, ProgressEmpty, StSuccessDone], remote = w, raised = None\<rparr> \<and>
   progress_events [ProgressCreate, ProgressEmpty, StSuccessDone] = [] \<and>
   (0 \<le> overlap \<and> overlap < chunkSize \<and> T \<noteq> [] \<and> int (length T) \<le> chunkSize \<longrightarrow>
      chunker_split ws W T chunkSize overlap =
        Inr [\<lparr>chunk_index = 0, chunk_start = 0, chunk_end = length T, chunk_text = T,
              overlapWithPrevious = 0\<rparr>])"
proof -
  have app: "app_click g splitter api_key model_name chunk_size chunk_overlap uploaded_file w =
        \<lparr>session_state = \<lparr>translated_text = [], original_text = Some []\<rparr>,
         ui = [], remote = w, raised = None\<rparr>"
    if "fst (extract_text_from_pdf uploaded_file) = Some []"
    using that
    by (auto simp: app_click_def extract_text_from_pdf_def split: outcome.splits exn.splits)
  have empty: "chunker_split ws W [] chunkSize overlap = Inr []"
    if "0 \<le> overlap \<and> overlap < chunkSize"
    using that by (simp add: chunker_split_def walk.simps)
  have run: "translate_chunks g api_key model_name [] ss tr w =
     \<lparr>session_state = ss\<lparr>translated_text := []\<rparr>,
      ui = tr @ [ProgressCreate, ProgressEmpty, StSuccessDone], remote = w, raised = None\<rparr>"
    by (simp add: translate_chunks_run)
  have short: "chunker_split ws W T chunkSize overlap =
        Inr [\<lparr>chunk_index = 0, chunk_start = 0, chunk_end = length T, chunk_text = T,
              overlapWithPrevious = 0\<rparr>]"
    if "0 \<le> overlap \<and> overlap < chunkSize \<and> T \<noteq> [] \<and> int (length T) \<le> chunkSize"
  proof -
    from that have "length T \<le> nat chunkSize" "\<not> nat chunkSize \<le> nat overlap" "0 < length T"
      by (linarith, linarith, simp)
    then have "walk ws W (nat chunkSize) (nat overlap) T 0 0 =
        [\<lparr>chunk_index = 0, chunk_start = 0, chunk_end = length T, chunk_text = T,
          overlapWithPrevious = 0\<rparr>]"
      by (subst walk.simps) simp
    with that show ?thesis by (simp add: chunker_split_def)
  qed
  from app empty run short show ?thesis by simp
qed

theorem empty_and_short_input_witness:
  "fst (extract_text_from_pdf (Return [Return None, Return (Some [])])) = Some [] \<and>
   app_click stub_genai (\<lambda>s ov text. (Inr [text] :: unit + str list)) [107] [109] 1500 200
       (Return [Return None, Return (Some [])]) 0 =
     \<lparr>session_state = \<lparr>translated_text = [], original_text = Some []\<rparr>,
      ui = [], remote = 0, raised = None\<rparr> \<and>
   chunker_split is_space 100 [] 1500 200 = Inr [] \<and>
   chunker_split is_space 100 [104, 105, 32, 121, 111, 117] 1500 200 =
     Inr [\<lparr>chunk_index = 0, chunk_start = 0, chunk_end = 6,
            chunk_text = [104, 105, 32, 121, 111, 117], overlapWithPrevious = 0\<rparr>]"
proof -
  let ?T = "[104, 105, 32, 121, 111, 117] :: str"
  have ex: "fst (extract_text_from_pdf (Return [Return None, Return (Some [])])) = Some []"
    by (simp add: extract_text_from_pdf_def)
  have valid: "(0 :: int) \<le> 200 \<and> (200 :: int) < 1500"
    by simp
  have short: "(0 :: int) \<le> 200 \<and> (200 :: int) < 1500 \<and> ?T \<noteq> [] \<and> int (length ?T) \<le> 1500"
    by simp
  have len: "length ?T = 6"
    by simp
  note inst = empty_and_short_input [of "Return [Return None, Return (Some [])]" stub_genai
      "\<lambda>s ov text. (Inr [text] :: unit + str list)" "[107]" "[109]" 1500 200 0 200 1500 is_space 100
      "\<lparr>translated_text = [], original_text = Some []\<rparr>" "[]" ?T]
  from inst ex have a: "app_click stub_genai (\<lambda>s ov text. (Inr [text] :: unit + str list)) [107] [109] 1500 200
       (Return [Return None, Return (Some [])]) 0 =
     \<lparr>session_state = \<lparr>translated_text = [], original_text = Some []\<rparr>,
      ui = [], remote = 0, raised = None\<rparr>"
    by blast
  from inst valid have b: "chunker_split is_space 100 [] 1500 200 = Inr []"
    by blast
  from inst short have "chunker_split is_space 100 ?T 1500 200 =
     Inr [\<lparr>chunk_index = 0, chunk_start = 0, chunk_end = length ?T,
            chunk_text = ?T, overlapWithPrevious = 0\<rparr>]"
    by blast
  then have c: "chunker_split is_space 100 ?T 1500 200 =
     Inr [\<lparr>chunk_index = 0, chunk_start = 0, chunk_end = 6,
            chunk_text = ?T, overlapWithPrevious = 0\<rparr>]"
    by (simp only: len)
  from ex a b c show ?thesis by blast
qed

end
